theory Spec2Isabelle
  imports Complex_Main "HOL-Library.Sublist"
begin

section \<open>Clip Finder: the search endpoint of \<open>backend/main.py\<close>\<close>

text \<open>
  The development embeds \<open>cosine_similarity\<close> and \<open>search_video\<close> of
  \<open>src/backend/main.py\<close>.

  Modelling decisions, valid for the whole file:
  \<^item> Python floats are the real numbers: \<open>+\<close>, \<open>*\<close>, \<open>/\<close>, \<open>sqrt\<close> and the
    comparisons are exact. IEEE rounding, overflow, underflow, infinities and NaN are
    not part of the model.
  \<^item> Python strings are \<open>string\<close>; \<open>str.lower\<close> is modelled on ASCII letters only.
  \<^item> A Python exception is a value \<open>Inl e\<close>; every \<open>try/except\<close> of the source is a case
    distinction on it.
  \<^item> The two embedding models are parameters (record \<open>providers\<close>): functions that
    return the embedding or raise.
  \<^item> The parsed JSON file \<open><video_id>_data.json\<close> is the record \<open>video_data\<close>, with
    the three keys the endpoint reads (a missing key is the empty list, as
    \<open>data.get(key, [])\<close> gives); the directory of these files and the in-memory
    dictionary \<open>search_history\<close> are the record \<open>app_state\<close>. A file that exists can be
    read and parsed.
\<close>

subsection \<open>Python built-ins used by the endpoint\<close>

datatype py_error = ValueError | IndexError | ProviderException string

datatype http_error = HTTPException int string

text \<open>Rounding half to even, as \<open>round(x, ndigits)\<close> and the format \<open>:.1f\<close> do.\<close>

definition round_half_even :: "real \<Rightarrow> int" where
  "round_half_even x =
     (let f = \<lfloor>x\<rfloor>; d = x - of_int f
      in if d < 1 / 2 then f
         else if 1 / 2 < d then f + 1
         else if even f then f else f + 1)"

definition py_round :: "real \<Rightarrow> nat \<Rightarrow> real" where
  "py_round x ndigits = of_int (round_half_even (x * 10 ^ ndigits)) / 10 ^ ndigits"

definition digit_char :: "nat \<Rightarrow> char" where
  "digit_char d = char_of (48 + d)"

fun str_nat :: "nat \<Rightarrow> string" where
  "str_nat n = (if n < 10 then [digit_char n] else str_nat (n div 10) @ [digit_char (n mod 10)])"

definition str_int :: "int \<Rightarrow> string" where
  "str_int i = (if i < 0 then CHR ''-'' # str_nat (nat (- i)) else str_nat (nat i))"

text \<open>\<open>f"{x:.1f}"\<close>: one digit after the point.\<close>

definition format_1f :: "real \<Rightarrow> string" where
  "format_1f x =
     (let n = nat (round_half_even (\<bar>x\<bar> * 10))
      in (if x < 0 then ''-'' else []) @ str_nat (n div 10) @ ''.'' @ [digit_char (n mod 10)])"

definition lower_char :: "char \<Rightarrow> char" where
  "lower_char c =
     (let n = (of_char c :: nat) in if 65 \<le> n \<and> n \<le> 90 then char_of (n + 32) else c)"

definition str_lower :: "string \<Rightarrow> string" where
  "str_lower s = map lower_char s"

text \<open>\<open>a in b\<close> on strings: \<open>a\<close> occurs in \<open>b\<close> as a contiguous substring.\<close>

fun str_in :: "string \<Rightarrow> string \<Rightarrow> bool" where
  "str_in a [] = (a = [])"
| "str_in a (c # cs) = (prefix a (c # cs) \<or> str_in a cs)"

text \<open>The slice \<open>xs[:k]\<close>; a negative \<open>k\<close> counts from the end.\<close>

definition py_slice_to :: "'a list \<Rightarrow> int \<Rightarrow> 'a list" where
  "py_slice_to xs k = (if 0 \<le> k then take (nat k) xs else take (length xs - nat (- k)) xs)"

subsection \<open>\<open>cosine_similarity\<close>\<close>

type_synonym vec = "real list"

text \<open>\<open>np.dot\<close> on two one-dimensional arrays of the same length.\<close>

definition dot :: "vec \<Rightarrow> vec \<Rightarrow> real" where
  "dot a b = sum_list (map2 (*) a b)"

text \<open>\<open>np.linalg.norm\<close> of a one-dimensional array.\<close>

definition norm2 :: "vec \<Rightarrow> real" where
  "norm2 a = sqrt (sum_list (map (\<lambda>x. x * x) a))"

text \<open>\<open>np.dot\<close> raises \<open>ValueError\<close> when the two shapes differ.\<close>

definition cosine_similarity :: "vec \<Rightarrow> vec \<Rightarrow> py_error + real" where
  "cosine_similarity a b =
     (if length a \<noteq> length b then Inl ValueError
      else let dot_product = dot a b; norm_a = norm2 a; norm_b = norm2 b
           in if norm_a = 0 \<or> norm_b = 0 then Inr 0
              else Inr (dot_product / (norm_a * norm_b)))"

subsection \<open>Data\<close>

record segment =
  seg_start :: real
  seg_end :: real
  seg_text :: string

record visual_datum =
  vd_timestamp :: real
  vd_frame_path :: string
  vd_frame_number :: int
  vd_embedding :: vec

record video_data =
  segments :: "segment list"
  text_embeddings :: "vec list"
  visual_data :: "visual_datum list"

record SearchQuery =
  q_video_id :: string
  q_query :: string
  q_search_type :: string
  q_top_k :: int

text \<open>A result dictionary; the keys that only visual results carry are optional.\<close>

record search_result =
  r_timestamp :: real
  r_text :: string
  r_score :: real
  r_search_type :: string
  r_end :: real
  r_frame_url :: "string option"
  r_frame_path :: "string option"
  r_clip_score :: "real option"

record visual_match =
  m_timestamp :: real
  m_frame_number :: int
  m_frame_path :: string
  m_similarity :: real

record search_response =
  resp_results :: "search_result list"
  resp_total_matches :: nat
  resp_search_type :: string
  resp_model :: string

record history_entry =
  h_query :: string
  h_search_type :: string
  h_timestamp :: string
  h_results_count :: nat
  h_top_score :: real

record app_state =
  data_files :: "string \<rightharpoonup> video_data"
  search_history :: "string \<rightharpoonup> history_entry list"

record providers =
  get_text_embeddings :: "string list \<Rightarrow> py_error + vec list"
  encode_text_with_openclip :: "string \<Rightarrow> py_error + vec"

subsection \<open>Text search\<close>

definition keyword_bonus :: "string \<Rightarrow> segment \<Rightarrow> real" where
  "keyword_bonus query seg =
     (let query_lower = str_lower query; text_lower = str_lower (seg_text seg)
      in if str_in query_lower text_lower then 0.3 else 0.0)"

text \<open>The dictionary appended for a segment, with the score the branch gives it.\<close>

definition text_result :: "segment \<Rightarrow> real \<Rightarrow> search_result" where
  "text_result seg score =
     \<lparr>r_timestamp = seg_start seg, r_text = seg_text seg, r_score = score,
      r_search_type = ''text'', r_end = seg_end seg, r_frame_url = None, r_frame_path = None,
      r_clip_score = None\<rparr>"

text \<open>
  The loop \<open>for i, seg in enumerate(text_segments)\<close> of the branch
  \<open>search_type == "text"\<close>. An exception of \<open>cosine_similarity\<close> leaves the \<open>try\<close>
  block: the results appended so far stay.
\<close>

fun text_loop ::
  "string \<Rightarrow> vec \<Rightarrow> vec list \<Rightarrow> nat \<Rightarrow> segment list \<Rightarrow> search_result list \<Rightarrow> search_result list"
where
  "text_loop query query_embedding embs i [] results = results"
| "text_loop query query_embedding embs i (seg # segs) results =
     (if length embs \<le> i then text_loop query query_embedding embs (Suc i) segs results
      else case cosine_similarity query_embedding (embs ! i) of
        Inl e \<Rightarrow> results
      | Inr similarity \<Rightarrow>
          (let combined_score = similarity + keyword_bonus query seg
           in if 0.3 < combined_score
              then text_loop query query_embedding embs (Suc i) segs
                     (results @ [text_result seg (min combined_score 1.0)])
              else text_loop query query_embedding embs (Suc i) segs results))"

definition text_search :: "providers \<Rightarrow> video_data \<Rightarrow> SearchQuery \<Rightarrow> search_result list" where
  "text_search P data query =
     (case get_text_embeddings P [q_query query] of
        Inl e \<Rightarrow> []
      | Inr query_embeddings \<Rightarrow>
          (case query_embeddings of
             [] \<Rightarrow> []
           | query_embedding # _ \<Rightarrow>
               text_loop (q_query query) query_embedding (text_embeddings data) 0 (segments data) []))"

subsection \<open>Visual search\<close>

text \<open>The \<open>for seg in segments: ... break\<close> loop that looks for the text of a frame.\<close>

fun segment_text_loop :: "real \<Rightarrow> string \<Rightarrow> segment list \<Rightarrow> string" where
  "segment_text_loop timestamp corresponding_text [] = corresponding_text"
| "segment_text_loop timestamp corresponding_text (seg # segs) =
     (if seg_start seg \<le> timestamp \<and> timestamp \<le> seg_end seg then seg_text seg
      else segment_text_loop timestamp corresponding_text segs)"

definition corresponding_text :: "segment list \<Rightarrow> real \<Rightarrow> string" where
  "corresponding_text segs timestamp =
     segment_text_loop timestamp (''Visual content at '' @ format_1f timestamp @ ''s'') segs"

definition frame_match :: "visual_datum \<Rightarrow> real \<Rightarrow> visual_match" where
  "frame_match vd similarity =
     \<lparr>m_timestamp = vd_timestamp vd, m_frame_number = vd_frame_number vd,
      m_frame_path = vd_frame_path vd, m_similarity = similarity\<rparr>"

text \<open>The loop that fills \<open>visual_matches\<close>; an exception leaves the \<open>try\<close> block.\<close>

fun visual_matches_loop :: "vec \<Rightarrow> visual_datum list \<Rightarrow> visual_match list \<Rightarrow> py_error + visual_match list"
where
  "visual_matches_loop query_visual_embedding [] visual_matches = Inr visual_matches"
| "visual_matches_loop query_visual_embedding (vd # vds) visual_matches =
     (case cosine_similarity query_visual_embedding (vd_embedding vd) of
        Inl e \<Rightarrow> Inl e
      | Inr similarity \<Rightarrow>
          visual_matches_loop query_visual_embedding vds
            (visual_matches @ [frame_match vd similarity]))"

definition visual_result :: "segment list \<Rightarrow> string \<Rightarrow> visual_match \<Rightarrow> search_result" where
  "visual_result segs video_id match =
     (let timestamp = m_timestamp match
      in \<lparr>r_timestamp = timestamp, r_text = corresponding_text segs timestamp,
          r_score = m_similarity match, r_search_type = ''visual'', r_end = timestamp + 1,
          r_frame_url = Some (''/frame/'' @ video_id @ ''/'' @ str_int (m_frame_number match)),
          r_frame_path = Some (m_frame_path match),
          r_clip_score = Some (py_round (m_similarity match) 3)\<rparr>)"

text \<open>
  The branch \<open>search_type == "visual"\<close>. \<open>sort(key=..., reverse=True)\<close> is stable and
  descending: it is \<open>sort_key\<close> on the negated key. Reading \<open>top_matches[0]\<close> for the log
  line raises \<open>IndexError\<close> on an empty list, before any result is appended.
\<close>

definition visual_search :: "providers \<Rightarrow> video_data \<Rightarrow> SearchQuery \<Rightarrow> search_result list" where
  "visual_search P data query =
     (case encode_text_with_openclip P (q_query query) of
        Inl e \<Rightarrow> []
      | Inr query_visual_embedding \<Rightarrow>
          (case visual_matches_loop query_visual_embedding (visual_data data) [] of
             Inl e \<Rightarrow> []
           | Inr visual_matches \<Rightarrow>
               (let sorted_matches = sort_key (\<lambda>x. - m_similarity x) visual_matches;
                    top_matches = py_slice_to sorted_matches (q_top_k query * 2)
                in if top_matches = [] then []
                   else map (visual_result (segments data) (q_video_id query)) top_matches)))"

subsection \<open>Hybrid search\<close>

fun hybrid_text_loop ::
  "string \<Rightarrow> vec \<Rightarrow> vec list \<Rightarrow> nat \<Rightarrow> segment list \<Rightarrow> search_result list \<Rightarrow> search_result list"
where
  "hybrid_text_loop query query_embedding embs i [] text_results = text_results"
| "hybrid_text_loop query query_embedding embs i (seg # segs) text_results =
     (if length embs \<le> i then hybrid_text_loop query query_embedding embs (Suc i) segs text_results
      else case cosine_similarity query_embedding (embs ! i) of
        Inl e \<Rightarrow> text_results
      | Inr similarity \<Rightarrow>
          (let combined_score = similarity + keyword_bonus query seg
           in if 0.3 < combined_score
              then hybrid_text_loop query query_embedding embs (Suc i) segs
                     (text_results @ [text_result seg (min combined_score 1.0 * 0.5)])
              else hybrid_text_loop query query_embedding embs (Suc i) segs text_results))"

definition hybrid_text_search :: "providers \<Rightarrow> video_data \<Rightarrow> SearchQuery \<Rightarrow> search_result list" where
  "hybrid_text_search P data query =
     (case get_text_embeddings P [q_query query] of
        Inl e \<Rightarrow> []
      | Inr query_embeddings \<Rightarrow>
          (case query_embeddings of
             [] \<Rightarrow> []
           | query_embedding # _ \<Rightarrow>
               hybrid_text_loop (q_query query) query_embedding (text_embeddings data) 0
                 (segments data) []))"

definition hybrid_visual_result ::
  "segment list \<Rightarrow> string \<Rightarrow> visual_datum \<Rightarrow> real \<Rightarrow> search_result"
where
  "hybrid_visual_result segs video_id vd similarity =
     (let timestamp = vd_timestamp vd
      in \<lparr>r_timestamp = timestamp, r_text = corresponding_text segs timestamp,
          r_score = similarity * 0.5, r_search_type = ''visual'', r_end = timestamp + 1,
          r_frame_url = Some (''/frame/'' @ video_id @ ''/'' @ str_int (vd_frame_number vd)),
          r_frame_path = None,
          r_clip_score = Some (py_round similarity 3)\<rparr>)"

fun hybrid_visual_loop ::
  "segment list \<Rightarrow> string \<Rightarrow> vec \<Rightarrow> visual_datum list \<Rightarrow> search_result list \<Rightarrow> search_result list"
where
  "hybrid_visual_loop segs video_id query_visual_embedding [] visual_results = visual_results"
| "hybrid_visual_loop segs video_id query_visual_embedding (vd # vds) visual_results =
     (case cosine_similarity query_visual_embedding (vd_embedding vd) of
        Inl e \<Rightarrow> visual_results
      | Inr similarity \<Rightarrow>
          (if 0.2 < similarity
           then hybrid_visual_loop segs video_id query_visual_embedding vds
                  (visual_results @ [hybrid_visual_result segs video_id vd similarity])
           else hybrid_visual_loop segs video_id query_visual_embedding vds visual_results))"

definition hybrid_visual_search :: "providers \<Rightarrow> video_data \<Rightarrow> SearchQuery \<Rightarrow> search_result list" where
  "hybrid_visual_search P data query =
     (case encode_text_with_openclip P (q_query query) of
        Inl e \<Rightarrow> []
      | Inr query_visual_embedding \<Rightarrow>
          hybrid_visual_loop (segments data) (q_video_id query) query_visual_embedding
            (visual_data data) [])"

definition hybrid_search :: "providers \<Rightarrow> video_data \<Rightarrow> SearchQuery \<Rightarrow> search_result list" where
  "hybrid_search P data query = hybrid_text_search P data query @ hybrid_visual_search P data query"

subsection \<open>Ranking, deduplication and the endpoint\<close>

definition sort_by_score :: "search_result list \<Rightarrow> search_result list" where
  "sort_by_score results = sort_key (\<lambda>x. - r_score x) results"

definition bucket :: "search_result \<Rightarrow> real" where
  "bucket r = py_round (r_timestamp r) 1"

text \<open>The loop \<open>for r in results\<close> over \<open>seen_timestamps\<close> and \<open>unique_results\<close>.\<close>

fun dedup_loop ::
  "search_result list \<Rightarrow> (real \<rightharpoonup> real) \<Rightarrow> search_result list \<Rightarrow> search_result list"
where
  "dedup_loop [] seen_timestamps unique_results = unique_results"
| "dedup_loop (r # rs) seen_timestamps unique_results =
     (let ts = bucket r
      in case seen_timestamps ts of
           None \<Rightarrow> dedup_loop rs (seen_timestamps(ts \<mapsto> r_score r)) (unique_results @ [r])
         | Some s \<Rightarrow>
             if s < r_score r
             then dedup_loop rs (seen_timestamps(ts \<mapsto> r_score r))
                    (filter (\<lambda>ur. bucket ur \<noteq> ts) unique_results @ [r])
             else dedup_loop rs seen_timestamps unique_results)"

text \<open>Lines 991 to 1005: sort, remove duplicates, sort again.\<close>

definition rank_results :: "search_result list \<Rightarrow> search_result list" where
  "rank_results results = sort_by_score (dedup_loop (sort_by_score results) Map.empty [])"

definition search_candidates :: "providers \<Rightarrow> video_data \<Rightarrow> SearchQuery \<Rightarrow> search_result list" where
  "search_candidates P data query =
     (if q_search_type query = ''text'' then text_search P data query
      else if q_search_type query = ''visual'' then visual_search P data query
      else hybrid_search P data query)"

definition history_append ::
  "(string \<rightharpoonup> history_entry list) \<Rightarrow> string \<Rightarrow> history_entry \<Rightarrow> (string \<rightharpoonup> history_entry list)"
where
  "history_append h video_id entry =
     h(video_id \<mapsto> (case h video_id of None \<Rightarrow> [] | Some es \<Rightarrow> es) @ [entry])"

text \<open>\<open>now\<close> is the value of \<open>datetime.now().isoformat()\<close> at the call.\<close>

definition search_video ::
  "providers \<Rightarrow> string \<Rightarrow> app_state \<Rightarrow> SearchQuery \<Rightarrow> http_error + (search_response \<times> app_state)"
where
  "search_video P now st query =
     (case data_files st (q_video_id query) of
        None \<Rightarrow> Inl (HTTPException 404 ''Video not processed yet'')
      | Some data \<Rightarrow>
          (let unique_results = rank_results (search_candidates P data query);
               entry = \<lparr>h_query = q_query query, h_search_type = q_search_type query,
                        h_timestamp = now, h_results_count = length unique_results,
                        h_top_score = (case unique_results of [] \<Rightarrow> 0 | r # _ \<Rightarrow> r_score r)\<rparr>
           in Inr (\<lparr>resp_results = py_slice_to unique_results (q_top_k query),
                     resp_total_matches = length unique_results,
                     resp_search_type = q_search_type query,
                     resp_model = ''OpenCLIP ViT-B-32 + LAION-2B - FIXED''\<rparr>,
                   st\<lparr>search_history :=
                        history_append (search_history st) (q_video_id query) entry\<rparr>)))"

subsection \<open>Notions used to state the properties\<close>

text \<open>
  What the deduplication is meant to compute: walking through a list, keep a result unless
  its bucket was met before (\<open>B\<close> is the set of buckets met so far).
\<close>

fun keep_first :: "real set \<Rightarrow> search_result list \<Rightarrow> search_result list" where
  "keep_first B [] = []"
| "keep_first B (r # rs) =
     (if bucket r \<in> B then keep_first B rs else r # keep_first (insert (bucket r) B) rs)"

text \<open>Scores are non-increasing along the list.\<close>

abbreviation score_desc :: "search_result list \<Rightarrow> bool" where
  "score_desc \<equiv> sorted_wrt (\<lambda>a b. r_score b \<le> r_score a)"

text \<open>
  The number \<open>cosine_similarity\<close> returns when it returns: the normalised dot product,
  and 0 when one of the norms is 0.
\<close>

definition cosine_value :: "vec \<Rightarrow> vec \<Rightarrow> real" where
  "cosine_value a b =
     (if norm2 a = 0 \<or> norm2 b = 0 then 0 else dot a b / (norm2 a * norm2 b))"

text \<open>Similarity plus keyword bonus, before the cap at 1.0.\<close>

definition combined_score :: "string \<Rightarrow> vec \<Rightarrow> segment \<Rightarrow> vec \<Rightarrow> real" where
  "combined_score query query_embedding seg e =
     cosine_value query_embedding e + keyword_bonus query seg"

text \<open>The same result dictionary with its score multiplied by 0.5.\<close>

definition half_score :: "search_result \<Rightarrow> search_result" where
  "half_score r = r\<lparr>r_score := r_score r * 0.5\<rparr>"


subsection \<open>A small session used to instantiate the theorems\<close>

text \<open>
  Two segments, three frames one second apart, a text encoder that maps every text to
  \<open>[1, 0]\<close> and a visual encoder that maps every text to \<open>[0, 1]\<close>; a second pair of
  encoders that always raise.
\<close>

definition ex_providers :: providers where
  "ex_providers =
     \<lparr>get_text_embeddings = (\<lambda>texts. Inr (map (\<lambda>t. [1, 0]) texts)),
      encode_text_with_openclip = (\<lambda>t. Inr [0, 1])\<rparr>"

definition ex_failing_providers :: providers where
  "ex_failing_providers =
     \<lparr>get_text_embeddings = (\<lambda>texts. Inl (ProviderException ''model unavailable'')),
      encode_text_with_openclip = (\<lambda>t. Inl (ProviderException ''model unavailable''))\<rparr>"

definition ex_segment_cats :: segment where
  "ex_segment_cats = \<lparr>seg_start = 0, seg_end = 1, seg_text = ''Cats are great''\<rparr>"

definition ex_segment_dogs :: segment where
  "ex_segment_dogs = \<lparr>seg_start = 1, seg_end = 3 / 2, seg_text = ''dogs''\<rparr>"

definition ex_segment_near :: segment where
  "ex_segment_near = \<lparr>seg_start = 1 / 25, seg_end = 1, seg_text = ''cats again''\<rparr>"

definition ex_frame0 :: visual_datum where
  "ex_frame0 = \<lparr>vd_timestamp = 0, vd_frame_path = ''frame_00000.jpg'', vd_frame_number = 0,
                vd_embedding = [0, 1]\<rparr>"

definition ex_frame1 :: visual_datum where
  "ex_frame1 = \<lparr>vd_timestamp = 1, vd_frame_path = ''frame_00001.jpg'', vd_frame_number = 1,
                vd_embedding = [1, 0]\<rparr>"

definition ex_frame2 :: visual_datum where
  "ex_frame2 = \<lparr>vd_timestamp = 2, vd_frame_path = ''frame_00002.jpg'', vd_frame_number = 2,
                vd_embedding = [4 / 5, 3 / 5]\<rparr>"

definition ex_data :: video_data where
  "ex_data =
     \<lparr>segments = [ex_segment_cats, ex_segment_dogs],
      text_embeddings = [[3 / 5, 4 / 5], [0, 1]],
      visual_data = [ex_frame0, ex_frame1, ex_frame2]\<rparr>"

definition ex_state :: app_state where
  "ex_state = \<lparr>data_files = [''vid'' \<mapsto> ex_data], search_history = Map.empty\<rparr>"

definition ex_query :: "string \<Rightarrow> string \<Rightarrow> SearchQuery" where
  "ex_query text mode = \<lparr>q_video_id = ''vid'', q_query = text, q_search_type = mode, q_top_k = 2\<rparr>"

definition ex_response :: "string \<Rightarrow> search_result list \<Rightarrow> search_response" where
  "ex_response mode results =
     \<lparr>resp_results = results, resp_total_matches = length results, resp_search_type = mode,
      resp_model = ''OpenCLIP ViT-B-32 + LAION-2B - FIXED''\<rparr>"

definition ex_state_after :: "history_entry list \<Rightarrow> app_state" where
  "ex_state_after entries = ex_state\<lparr>search_history := [''vid'' \<mapsto> entries]\<rparr>"

section \<open>Properties\<close>

subsection \<open>Ranking and deduplication\<close>

text \<open>
  On a list sorted by score, best first, the loop never replaces a result it has kept: the
  score stored for a bucket is at least every score still to come. It then keeps exactly
  the first result of every bucket.
\<close>

lemma dedup_loop_keep_first:
  "score_desc rs \<Longrightarrow> (\<forall>ts s. seen ts = Some s \<longrightarrow> (\<forall>r\<in>set rs. r_score r \<le> s)) \<Longrightarrow>
   dedup_loop rs seen unique = unique @ keep_first (dom seen) rs"
proof (induction rs arbitrary: seen unique)
  case Nil
  then show ?case by simp
next
  case (Cons r rs)
  have sd: "score_desc rs" using Cons.prems(1) by simp
  show ?case
  proof (cases "seen (bucket r)")
    case None
    let ?seen = "seen(bucket r \<mapsto> r_score r)"
    have b: "\<forall>ts s. ?seen ts = Some s \<longrightarrow> (\<forall>x\<in>set rs. r_score x \<le> s)"
      using Cons.prems by auto
    have "dedup_loop (r # rs) seen unique = dedup_loop rs ?seen (unique @ [r])"
      using None by simp
    also have "\<dots> = (unique @ [r]) @ keep_first (dom ?seen) rs"
      by (rule Cons.IH[OF sd b])
    also have "\<dots> = unique @ keep_first (dom seen) (r # rs)"
      using None by (simp add: domIff)
    finally show ?thesis .
  next
    case (Some s)
    have le: "r_score r \<le> s" using Cons.prems(2) Some by auto
    have b: "\<forall>ts s. seen ts = Some s \<longrightarrow> (\<forall>x\<in>set rs. r_score x \<le> s)"
      using Cons.prems(2) by auto
    have "dedup_loop (r # rs) seen unique = dedup_loop rs seen unique"
      using Some le by simp
    also have "\<dots> = unique @ keep_first (dom seen) rs"
      by (rule Cons.IH[OF sd b])
    also have "\<dots> = unique @ keep_first (dom seen) (r # rs)"
      using Some by (simp add: domI)
    finally show ?thesis .
  qed
qed

lemma keep_first_buckets:
  "r \<in> set (keep_first B xs) \<Longrightarrow> r \<in> set xs \<and> bucket r \<notin> B"
  by (induction xs arbitrary: B) (auto split: if_splits)

lemma keep_first_distinct: "distinct (map bucket (keep_first B xs))"
  by (induction xs arbitrary: B) (auto dest: keep_first_buckets)

lemma keep_first_score_desc: "score_desc xs \<Longrightarrow> score_desc (keep_first B xs)"
  by (induction xs arbitrary: B) (auto dest: keep_first_buckets)

lemma keep_first_find:
  "r \<in> set (keep_first B xs) \<Longrightarrow> find (\<lambda>x. bucket x = bucket r) xs = Some r"
proof (induction xs arbitrary: B)
  case Nil
  then show ?case by simp
next
  case (Cons x xs)
  show ?case
  proof (cases "bucket x \<in> B")
    case True
    with Cons.prems have m: "r \<in> set (keep_first B xs)" by simp
    then have "bucket r \<notin> B" by (rule keep_first_buckets[THEN conjunct2])
    with True have "bucket x \<noteq> bucket r" by auto
    with Cons.IH[OF m] show ?thesis by simp
  next
    case False
    with Cons.prems have "r = x \<or> r \<in> set (keep_first (insert (bucket x) B) xs)" by simp
    then show ?thesis
    proof
      assume "r = x" then show ?thesis by simp
    next
      assume m: "r \<in> set (keep_first (insert (bucket x) B) xs)"
      then have "bucket r \<notin> insert (bucket x) B" by (rule keep_first_buckets[THEN conjunct2])
      then have "bucket x \<noteq> bucket r" by auto
      with Cons.IH[OF m] show ?thesis by simp
    qed
  qed
qed

lemma keep_first_covers:
  "c \<in> set xs \<Longrightarrow> bucket c \<notin> B \<Longrightarrow> \<exists>r\<in>set (keep_first B xs). bucket r = bucket c"
proof (induction xs arbitrary: B)
  case Nil
  then show ?case by simp
next
  case (Cons x xs)
  show ?case
  proof (cases "bucket x = bucket c")
    case True
    with Cons.prems(2) show ?thesis by auto
  next
    case False
    with Cons.prems have c: "c \<in> set xs" by auto
    show ?thesis
    proof (cases "bucket x \<in> B")
      case True
      with Cons.IH[OF c Cons.prems(2)] show ?thesis by simp
    next
      case b: False
      have "bucket c \<notin> insert (bucket x) B" using False Cons.prems(2) by auto
      from Cons.IH[OF c this] b show ?thesis by auto
    qed
  qed
qed

lemma find_first_sorted:
  "score_desc xs \<Longrightarrow> find P xs = Some r \<Longrightarrow> c \<in> set xs \<Longrightarrow> P c \<Longrightarrow> r_score c \<le> r_score r"
  by (induction xs) (auto split: if_splits)

lemma find_conj: "find P xs = Some r \<Longrightarrow> Q r \<Longrightarrow> find (\<lambda>x. Q x \<and> P x) xs = Some r"
  by (induction xs) (auto split: if_splits)

lemma find_filter: "find P (filter Q xs) = find (\<lambda>x. Q x \<and> P x) xs"
  by (induction xs) auto

lemma score_desc_sort_by_score: "score_desc (sort_by_score xs)"
proof -
  have "sorted (map (\<lambda>x. - r_score x) (sort_by_score xs))"
    unfolding sort_by_score_def by (rule sorted_sort_key)
  then show ?thesis by (simp add: sorted_map)
qed

lemma sort_by_score_id: "score_desc xs \<Longrightarrow> sort_by_score xs = xs"
  unfolding sort_by_score_def by (rule sort_key_id_if_sorted) (simp add: sorted_map)

lemma rank_results_keep_first: "rank_results results = keep_first {} (sort_by_score results)"
proof -
  have "dedup_loop (sort_by_score results) Map.empty [] = [] @ keep_first (dom (Map.empty :: real \<rightharpoonup> real)) (sort_by_score results)"
    by (rule dedup_loop_keep_first) (simp_all add: score_desc_sort_by_score)
  then have d: "dedup_loop (sort_by_score results) Map.empty [] = keep_first {} (sort_by_score results)"
    by simp
  show ?thesis
    unfolding rank_results_def d
    by (rule sort_by_score_id) (rule keep_first_score_desc[OF score_desc_sort_by_score])
qed

lemma rank_results_first_of_ties:
  assumes "r \<in> set (rank_results results)"
  shows "find (\<lambda>x. r_score x = r_score r \<and> bucket x = bucket r) results = Some r"
proof -
  let ?S = "sort_by_score results"
  from assms have "find (\<lambda>x. bucket x = bucket r) ?S = Some r"
    by (simp add: rank_results_keep_first keep_first_find)
  then have "find (\<lambda>x. r_score x = r_score r \<and> bucket x = bucket r) ?S = Some r"
    by (rule find_conj) simp
  then have "find (\<lambda>x. bucket x = bucket r) (filter (\<lambda>x. r_score x = r_score r) ?S) = Some r"
    by (simp add: find_filter)
  moreover have "filter (\<lambda>x. r_score x = r_score r) ?S = filter (\<lambda>x. r_score x = r_score r) results"
  proof -
    have "filter (\<lambda>x. - r_score x = - r_score r) (sort_key (\<lambda>x. - r_score x) results)
        = filter (\<lambda>x. - r_score x = - r_score r) results"
      by (rule sort_key_stable)
    then show ?thesis by (simp add: sort_by_score_def)
  qed
  ultimately show ?thesis by (simp add: find_filter)
qed

lemma rank_results_max_in_bucket:
  assumes "r \<in> set (rank_results results)" "c \<in> set results" "bucket c = bucket r"
  shows "r_score c \<le> r_score r"
proof -
  let ?S = "sort_by_score results"
  from assms(1) have "find (\<lambda>x. bucket x = bucket r) ?S = Some r"
    by (simp add: rank_results_keep_first keep_first_find)
  moreover have "c \<in> set ?S" using assms(2) by (simp add: sort_by_score_def)
  ultimately show ?thesis
    using find_first_sorted[OF score_desc_sort_by_score, of _ results] assms(3) by blast
qed

lemma rank_results_covers:
  assumes "c \<in> set results"
  shows "\<exists>r\<in>set (rank_results results). bucket r = bucket c"
proof -
  have "c \<in> set (sort_by_score results)" using assms by (simp add: sort_by_score_def)
  then show ?thesis
    unfolding rank_results_keep_first by (rule keep_first_covers) simp
qed

lemma rank_results_subset: "set (rank_results results) \<subseteq> set results"
  using keep_first_buckets[of _ "{}" "sort_by_score results"]
  by (auto simp: rank_results_keep_first sort_by_score_def)

lemma rank_results_score_desc: "score_desc (rank_results results)"
  unfolding rank_results_keep_first
  by (rule keep_first_score_desc[OF score_desc_sort_by_score])

lemma rank_results_distinct: "distinct (map bucket (rank_results results))"
  unfolding rank_results_keep_first by (rule keep_first_distinct)

lemma py_slice_to_take: "\<exists>n. py_slice_to xs k = take n xs"
  by (auto simp: py_slice_to_def)

lemma py_slice_to_length: "0 \<le> k \<Longrightarrow> length (py_slice_to xs k) \<le> nat k"
  by (simp add: py_slice_to_def)

subsection \<open>The text loops\<close>







lemma hybrid_text_loop_half:
  "hybrid_text_loop q qe embs i segs (map half_score acc) =
   map half_score (text_loop q qe embs i segs acc)"
proof (induction segs arbitrary: i acc)
  case Nil
  then show ?case by simp
next
  case (Cons seg segs)
  have h: "text_result seg (s / 2) = half_score (text_result seg s)" for s
    by (simp add: text_result_def half_score_def)
  show ?case
    using Cons.IH[of "Suc i" acc] Cons.IH[of "Suc i" "acc @ [x]" for x]
    by (simp add: Let_def h split: sum.split)
qed

lemma hybrid_text_search_half:
  "hybrid_text_search P data query = map half_score (text_search P data query)"
  using hybrid_text_loop_half[of _ _ _ _ _ "[]"]
  by (simp add: hybrid_text_search_def text_search_def split: sum.split list.split)

subsection \<open>The visual loops and the response\<close>



lemma hybrid_visual_loop_members:
  "r \<in> set (hybrid_visual_loop segs vid qv vds acc) \<Longrightarrow>
   r \<in> set acc \<or>
   (\<exists>vd\<in>set vds. \<exists>sim. cosine_similarity qv (vd_embedding vd) = Inr sim \<and> 0.2 < sim \<and>
       r = hybrid_visual_result segs vid vd sim)"
proof (induction vds arbitrary: acc)
  case Nil
  then show ?case by simp
next
  case (Cons vd vds)
  show ?case
  proof (cases "cosine_similarity qv (vd_embedding vd)")
    case (Inl e)
    with Cons.prems show ?thesis by simp
  next
    case (Inr sim)
    show ?thesis
    proof (cases "0.2 < sim")
      case True
      with Inr Cons.prems
      have "r \<in> set (hybrid_visual_loop segs vid qv vds (acc @ [hybrid_visual_result segs vid vd sim]))"
        by simp
      from Cons.IH[OF this] True Inr show ?thesis by auto
    next
      case False
      with Inr Cons.prems have "r \<in> set (hybrid_visual_loop segs vid qv vds acc)" by simp
      from Cons.IH[OF this] show ?thesis by auto
    qed
  qed
qed

lemma segment_text_loop_find:
  "segment_text_loop ts d segs =
     (case find (\<lambda>seg. seg_start seg \<le> ts \<and> ts \<le> seg_end seg) segs of
        Some seg \<Rightarrow> seg_text seg | None \<Rightarrow> d)"
  by (induction segs) auto

lemma corresponding_text_find:
  "corresponding_text segs ts =
     (case find (\<lambda>seg. seg_start seg \<le> ts \<and> ts \<le> seg_end seg) segs of
        Some seg \<Rightarrow> seg_text seg
      | None \<Rightarrow> ''Visual content at '' @ format_1f ts @ ''s'')"
  unfolding corresponding_text_def by (rule segment_text_loop_find)

lemma set_py_slice_to: "set (py_slice_to xs k) \<subseteq> set xs"
  by (auto simp: py_slice_to_def dest: in_set_takeD)

lemma visual_search_members:
  "r \<in> set (visual_search P data query) \<Longrightarrow>
   \<exists>m. r = visual_result (segments data) (q_video_id query) m"
  by (auto simp: visual_search_def Let_def split: sum.splits if_splits)

lemma hybrid_visual_search_members:
  "r \<in> set (hybrid_visual_search P data query) \<Longrightarrow>
   \<exists>vd sim qv. cosine_similarity qv (vd_embedding vd) = Inr sim \<and> 0.2 < sim \<and>
      r = hybrid_visual_result (segments data) (q_video_id query) vd sim"
proof -
  assume m: "r \<in> set (hybrid_visual_search P data query)"
  then obtain qv where "r \<in> set (hybrid_visual_loop (segments data) (q_video_id query) qv (visual_data data) [])"
    by (auto simp: hybrid_visual_search_def split: sum.splits)
  from hybrid_visual_loop_members[OF this] show ?thesis by auto
qed

lemma visual_result_text:
  "r_text (visual_result segs vid m) = corresponding_text segs (r_timestamp (visual_result segs vid m))"
  by (simp add: visual_result_def Let_def)

lemma hybrid_visual_result_text:
  "r_text (hybrid_visual_result segs vid vd sim) =
   corresponding_text segs (r_timestamp (hybrid_visual_result segs vid vd sim))"
  by (simp add: hybrid_visual_result_def Let_def)

lemma text_loop_type:
  "r \<in> set (text_loop q qe embs i segs acc) \<Longrightarrow> r \<in> set acc \<or> r_search_type r = ''text''"
proof (induction segs arbitrary: i acc)
  case Nil
  then show ?case by simp
next
  case (Cons seg segs)
  show ?case
  proof (cases "length embs \<le> i")
    case True
    with Cons.prems Cons.IH[of "Suc i" acc] show ?thesis by simp
  next
    case False
    show ?thesis
    proof (cases "cosine_similarity qe (embs ! i)")
      case (Inl e)
      with False Cons.prems show ?thesis by simp
    next
      case (Inr sim)
      show ?thesis
      proof (cases "0.3 < sim + keyword_bonus q seg")
        case True
        with False Inr Cons.prems
        have "r \<in> set (text_loop q qe embs (Suc i) segs
                 (acc @ [text_result seg (min (sim + keyword_bonus q seg) 1)]))"
          by (simp add: Let_def)
        from Cons.IH[OF this] show ?thesis
          by (auto simp: text_result_def)
      next
        case F: False
        with False Inr Cons.prems
        have "r \<in> set (text_loop q qe embs (Suc i) segs acc)"
          by (simp add: Let_def)
        from Cons.IH[OF this] show ?thesis .
      qed
    qed
  qed
qed

lemma text_search_type: "r \<in> set (text_search P data query) \<Longrightarrow> r_search_type r = ''text''"
  by (auto simp: text_search_def split: sum.splits list.splits dest: text_loop_type)

lemma hybrid_text_search_type:
  "r \<in> set (hybrid_text_search P data query) \<Longrightarrow> r_search_type r = ''text''"
  by (auto simp: hybrid_text_search_half half_score_def dest: text_search_type)

lemma visual_candidate_text:
  assumes "r \<in> set (search_candidates P data query)" "r_search_type r = ''visual''"
  shows "r_text r = corresponding_text (segments data) (r_timestamp r)"
proof -
  have "r \<in> set (visual_search P data query) \<or> r \<in> set (hybrid_visual_search P data query)"
    using assms text_search_type[of r P data query] hybrid_text_search_type[of r P data query]
    by (auto simp: search_candidates_def hybrid_search_def split: if_splits)
  then show ?thesis
  proof
    assume "r \<in> set (visual_search P data query)"
    then obtain m where "r = visual_result (segments data) (q_video_id query) m"
      using visual_search_members by blast
    then show ?thesis by (simp add: visual_result_text)
  next
    assume "r \<in> set (hybrid_visual_search P data query)"
    then obtain vd sim where "r = hybrid_visual_result (segments data) (q_video_id query) vd sim"
      using hybrid_visual_search_members by blast
    then show ?thesis by (simp add: hybrid_visual_result_text)
  qed
qed

lemma search_video_Inr:
  "search_video P now st query = Inr (resp, st') \<Longrightarrow>
   \<exists>data. data_files st (q_video_id query) = Some data \<and>
     resp_results resp = py_slice_to (rank_results (search_candidates P data query)) (q_top_k query) \<and>
     resp_total_matches resp = length (rank_results (search_candidates P data query)) \<and>
     resp_search_type resp = q_search_type query"
  by (auto simp: search_video_def Let_def split: option.splits)

subsection \<open>Cosine similarity\<close>










lemma ranked_slice_subset:
  "set (py_slice_to (rank_results results) k) \<subseteq> set results"
  using set_py_slice_to[of "rank_results results" k] rank_results_subset[of results] by simp



lemma hybrid_search_search_type:
  "hybrid_search P data (query\<lparr>q_search_type := t\<rparr>) = hybrid_search P data query"
  by (simp add: hybrid_search_def hybrid_text_search_def hybrid_visual_search_def
      split: sum.split list.split)

subsection \<open>Evaluation on the example session\<close>

text \<open>The equations that evaluate the endpoint on the example session.\<close>

lemmas ex_defs = ex_providers_def ex_failing_providers_def ex_segment_cats_def
  ex_segment_dogs_def ex_segment_near_def ex_frame0_def ex_frame1_def ex_frame2_def ex_data_def ex_state_def
  ex_query_def ex_response_def ex_state_after_def

lemmas eval_defs = search_video_def search_candidates_def rank_results_def sort_by_score_def
  bucket_def hybrid_search_def hybrid_text_search_def hybrid_visual_search_def text_search_def
  visual_search_def visual_result_def hybrid_visual_result_def text_result_def frame_match_def
  cosine_similarity_def dot_def norm2_def keyword_bonus_def str_lower_def lower_char_def
  corresponding_text_def format_1f_def round_half_even_def digit_char_def str_int_def
  py_round_def py_slice_to_def history_append_def char_of_def bit_0

lemma ex_cosine_values:
  "cosine_value [1, 0] [3 / 5, 4 / 5] = 3 / 5" "cosine_value [1, 0] [0, 1] = 0"
  "cosine_value [0, 1] [0, 1] = 1" "cosine_value [0, 1] [1, 0] = 0"
  "cosine_value [0, 1] [4 / 5, 3 / 5] = 3 / 5"
  by (simp_all add: cosine_value_def dot_def norm2_def)


lemma ex_visual_search:
  "visual_search ex_providers ex_data (ex_query ''cats'' ''visual'') =
     [visual_result (segments ex_data) ''vid'' (frame_match ex_frame0 1),
      visual_result (segments ex_data) ''vid'' (frame_match ex_frame2 (3 / 5)),
      visual_result (segments ex_data) ''vid'' (frame_match ex_frame1 0)]"
  by (simp add: ex_defs eval_defs)

lemma ex_visual_texts:
  "map r_text (visual_search ex_providers ex_data (ex_query ''cats'' ''visual'')) =
     [''Cats are great'', ''Visual content at 2.0s'', ''Cats are great'']"
  by (simp add: ex_defs eval_defs)

lemma ex_hybrid_search:
  "hybrid_search ex_providers ex_data (ex_query ''cats'' ''hybrid'') =
     [text_result ex_segment_cats (9 / 20),
      hybrid_visual_result (segments ex_data) ''vid'' ex_frame0 1,
      hybrid_visual_result (segments ex_data) ''vid'' ex_frame2 (3 / 5)]"
  by (simp add: ex_defs eval_defs)

lemma ex_search_video_hybrid:
  assumes "mode \<noteq> ''text''" and "mode \<noteq> ''visual''"
  shows "search_video ex_providers now ex_state (ex_query ''cats'' mode) =
     Inr (ex_response mode
            [hybrid_visual_result (segments ex_data) ''vid'' ex_frame0 1,
             hybrid_visual_result (segments ex_data) ''vid'' ex_frame2 (3 / 5)],
          ex_state_after
            [\<lparr>h_query = ''cats'', h_search_type = mode, h_timestamp = now,
              h_results_count = 2, h_top_score = 1 / 2\<rparr>])"
  using assms by (simp add: ex_defs eval_defs numeral_2_eq_2)



lemma ex_search_video_failing:
  "search_video ex_failing_providers now ex_state (ex_query ''cats'' ''hybrid'') =
     Inr (ex_response ''hybrid'' [],
          ex_state_after
            [\<lparr>h_query = ''cats'', h_search_type = ''hybrid'', h_timestamp = now,
              h_results_count = 0, h_top_score = 0\<rparr>])"
  by (simp add: ex_defs eval_defs)

lemma ex_rank_results_same_bucket:
  "bucket (text_result ex_segment_cats s) = bucket (text_result ex_segment_near s')"
  "rank_results [text_result ex_segment_cats (1 / 2), text_result ex_segment_near (1 / 2)] =
     [text_result ex_segment_cats (1 / 2)]"
  "rank_results [text_result ex_segment_near (1 / 2), text_result ex_segment_cats (1 / 2)] =
     [text_result ex_segment_near (1 / 2)]"
  "rank_results [text_result ex_segment_cats (2 / 5), text_result ex_segment_near (1 / 2)] =
     [text_result ex_segment_near (1 / 2)]"
  by (simp_all add: ex_defs eval_defs)

section \<open>The claims\<close>

subsection \<open>Claim C1\<close>



subsection \<open>Claim C2\<close>

text \<open>
  Claim C2. Ranking, for every search type. When the endpoint returns a response, its
  results are the candidates sorted by score (best first, stable), passed through the
  deduplication loop, sorted again, and cut by \<open>[:top_k]\<close>. The results are sorted by score,
  non-increasing; no two of them have the same timestamp rounded to one decimal; for
  \<open>top_k \<ge> 0\<close> there are at most \<open>top_k\<close> of them. Before the cut, the kept results are
  candidates; every candidate has a kept result in its bucket whose score is at least its
  own (so of two candidates in one bucket only the better one stays); and each kept
  result is the first candidate, in the order of the candidate list, among those with its
  bucket and its score (on a tie the first one met stays).
\<close>

theorem ranking_dedup_truncate:
  assumes "search_video P now st query = Inr (resp, st')"
  shows "\<exists>data. data_files st (q_video_id query) = Some data \<and>
     (let candidates = search_candidates P data query;
          unique_results = rank_results candidates
      in unique_results = sort_by_score (dedup_loop (sort_by_score candidates) Map.empty []) \<and>
         resp_results resp = py_slice_to unique_results (q_top_k query) \<and>
         sorted_wrt (\<lambda>a b. r_score b \<le> r_score a) (resp_results resp) \<and>
         distinct (map bucket (resp_results resp)) \<and>
         (0 \<le> q_top_k query \<longrightarrow> length (resp_results resp) \<le> nat (q_top_k query)) \<and>
         set unique_results \<subseteq> set candidates \<and>
         (\<forall>c\<in>set candidates. \<exists>r\<in>set unique_results. bucket r = bucket c \<and> r_score c \<le> r_score r) \<and>
         (\<forall>r\<in>set unique_results.
            find (\<lambda>x. r_score x = r_score r \<and> bucket x = bucket r) candidates = Some r))"
proof -
  from search_video_Inr[OF assms] obtain data where
    d: "data_files st (q_video_id query) = Some data" and
    r: "resp_results resp = py_slice_to (rank_results (search_candidates P data query)) (q_top_k query)"
    by blast
  let ?c = "search_candidates P data query"
  let ?u = "rank_results ?c"
  obtain n where n: "py_slice_to ?u (q_top_k query) = take n ?u"
    using py_slice_to_take by blast
  have 1: "sorted_wrt (\<lambda>a b. r_score b \<le> r_score a) (resp_results resp)"
    unfolding r n using rank_results_score_desc[of ?c] by (rule sorted_wrt_take)
  have 2: "distinct (map bucket (resp_results resp))"
    unfolding r n using rank_results_distinct[of ?c] by (simp add: take_map[symmetric])
  have 3: "0 \<le> q_top_k query \<longrightarrow> length (resp_results resp) \<le> nat (q_top_k query)"
    unfolding r by (simp add: py_slice_to_length)
  have 4: "\<forall>c\<in>set ?c. \<exists>r\<in>set ?u. bucket r = bucket c \<and> r_score c \<le> r_score r"
  proof
    fix c assume c: "c \<in> set ?c"
    from rank_results_covers[OF c] obtain r where rr: "r \<in> set ?u" "bucket r = bucket c" by blast
    with rank_results_max_in_bucket[OF rr(1) c] show "\<exists>r\<in>set ?u. bucket r = bucket c \<and> r_score c \<le> r_score r"
      by auto
  qed
  have 5: "\<forall>r\<in>set ?u. find (\<lambda>x. r_score x = r_score r \<and> bucket x = bucket r) ?c = Some r"
    using rank_results_first_of_ties by blast
  show ?thesis
    using d r 1 2 3 4 5 rank_results_subset[of ?c]
    by (simp add: Let_def rank_results_def)
qed

theorem ranking_dedup_truncate_witness:
  "search_video ex_providers ''2024-05-01T10:00:00'' ex_state (ex_query ''cats'' ''hybrid'') =
     Inr (ex_response ''hybrid''
            [hybrid_visual_result (segments ex_data) ''vid'' ex_frame0 1,
             hybrid_visual_result (segments ex_data) ''vid'' ex_frame2 (3 / 5)],
          ex_state_after
            [\<lparr>h_query = ''cats'', h_search_type = ''hybrid'',
              h_timestamp = ''2024-05-01T10:00:00'', h_results_count = 2,
              h_top_score = 1 / 2\<rparr>]) \<and>
   search_candidates ex_providers ex_data (ex_query ''cats'' ''hybrid'') =
     [text_result ex_segment_cats (9 / 20),
      hybrid_visual_result (segments ex_data) ''vid'' ex_frame0 1,
      hybrid_visual_result (segments ex_data) ''vid'' ex_frame2 (3 / 5)] \<and>
   bucket (text_result ex_segment_cats (9 / 20)) =
     bucket (hybrid_visual_result (segments ex_data) ''vid'' ex_frame0 1) \<and>
   rank_results [text_result ex_segment_cats (1 / 2), text_result ex_segment_near (1 / 2)] =
     [text_result ex_segment_cats (1 / 2)] \<and>
   rank_results [text_result ex_segment_near (1 / 2), text_result ex_segment_cats (1 / 2)] =
     [text_result ex_segment_near (1 / 2)] \<and>
   rank_results [text_result ex_segment_cats (2 / 5), text_result ex_segment_near (1 / 2)] =
     [text_result ex_segment_near (1 / 2)] \<and>
   (\<exists>data. data_files ex_state (q_video_id (ex_query ''cats'' ''hybrid'')) = Some data \<and>
     (let candidates = search_candidates ex_providers data (ex_query ''cats'' ''hybrid'');
          unique_results = rank_results candidates;
          results = [hybrid_visual_result (segments ex_data) ''vid'' ex_frame0 1,
                     hybrid_visual_result (segments ex_data) ''vid'' ex_frame2 (3 / 5)]
      in results = py_slice_to unique_results 2 \<and>
         sorted_wrt (\<lambda>a b. r_score b \<le> r_score a) results \<and>
         distinct (map bucket results) \<and> length results \<le> 2 \<and>
         (\<forall>c\<in>set candidates. \<exists>r\<in>set unique_results. bucket r = bucket c \<and> r_score c \<le> r_score r)))"
proof -
  have h: "search_video ex_providers ''2024-05-01T10:00:00'' ex_state (ex_query ''cats'' ''hybrid'') =
     Inr (ex_response ''hybrid''
            [hybrid_visual_result (segments ex_data) ''vid'' ex_frame0 1,
             hybrid_visual_result (segments ex_data) ''vid'' ex_frame2 (3 / 5)],
          ex_state_after
            [\<lparr>h_query = ''cats'', h_search_type = ''hybrid'',
              h_timestamp = ''2024-05-01T10:00:00'', h_results_count = 2,
              h_top_score = 1 / 2\<rparr>])"
    by (rule ex_search_video_hybrid) simp_all
  have c: "search_candidates ex_providers ex_data (ex_query ''cats'' ''hybrid'') =
     [text_result ex_segment_cats (9 / 20),
      hybrid_visual_result (segments ex_data) ''vid'' ex_frame0 1,
      hybrid_visual_result (segments ex_data) ''vid'' ex_frame2 (3 / 5)]"
    using ex_hybrid_search by (simp add: search_candidates_def ex_query_def)
  have b: "bucket (text_result ex_segment_cats (9 / 20)) =
     bucket (hybrid_visual_result (segments ex_data) ''vid'' ex_frame0 1)"
    by (simp add: ex_defs eval_defs)
  have k: "q_top_k (ex_query ''cats'' ''hybrid'') = 2" by (simp add: ex_query_def)
  have r: "resp_results (ex_response ''hybrid'' rs) = rs" for rs by (simp add: ex_response_def)
  from ranking_dedup_truncate[OF h] show ?thesis
    using h c b ex_rank_results_same_bucket(2,3,4) unfolding k r by (auto simp: Let_def)
qed

subsection \<open>Claim C3\<close>



subsection \<open>Claim C4\<close>



subsection \<open>Claim C5\<close>

text \<open>
  Claim C5. The text of a visual result. For every candidate of visual mode and every
  visual candidate of hybrid mode, the text is the text of the first segment, in session
  order, with \<open>start \<le> timestamp \<le> end\<close>; if there is none, it is the label
  \<open>Visual content at <t>s\<close>, where \<open><t>\<close> is the timestamp with one decimal. The same holds
  for every result of a response whose \<open>search_type\<close> is \<open>visual\<close>.
\<close>

theorem visual_text_first_containing_segment:
  "(\<forall>r\<in>set (visual_search P data query) \<union> set (hybrid_visual_search P data query).
      r_text r =
        (case find (\<lambda>seg. seg_start seg \<le> r_timestamp r \<and> r_timestamp r \<le> seg_end seg)
                (segments data) of
           Some seg \<Rightarrow> seg_text seg
         | None \<Rightarrow> ''Visual content at '' @ format_1f (r_timestamp r) @ ''s'')) \<and>
   (\<forall>now st resp st' d.
      search_video P now st query = Inr (resp, st') \<and> data_files st (q_video_id query) = Some d \<longrightarrow>
      (\<forall>r\<in>set (resp_results resp). r_search_type r = ''visual'' \<longrightarrow>
         r_text r =
           (case find (\<lambda>seg. seg_start seg \<le> r_timestamp r \<and> r_timestamp r \<le> seg_end seg)
                   (segments d) of
              Some seg \<Rightarrow> seg_text seg
            | None \<Rightarrow> ''Visual content at '' @ format_1f (r_timestamp r) @ ''s'')))"
proof (intro conjI allI impI ballI)
  fix r assume "r \<in> set (visual_search P data query) \<union> set (hybrid_visual_search P data query)"
  then have "r_text r = corresponding_text (segments data) (r_timestamp r)"
  proof
    assume "r \<in> set (visual_search P data query)"
    then obtain m where "r = visual_result (segments data) (q_video_id query) m"
      using visual_search_members by blast
    then show ?thesis by (simp add: visual_result_text)
  next
    assume "r \<in> set (hybrid_visual_search P data query)"
    then obtain vd sim where "r = hybrid_visual_result (segments data) (q_video_id query) vd sim"
      using hybrid_visual_search_members by blast
    then show ?thesis by (simp add: hybrid_visual_result_text)
  qed
  then show "r_text r =
        (case find (\<lambda>seg. seg_start seg \<le> r_timestamp r \<and> r_timestamp r \<le> seg_end seg)
                (segments data) of
           Some seg \<Rightarrow> seg_text seg
         | None \<Rightarrow> ''Visual content at '' @ format_1f (r_timestamp r) @ ''s'')"
    by (simp add: corresponding_text_find)
next
  fix now st resp st' d r
  assume h: "search_video P now st query = Inr (resp, st') \<and> data_files st (q_video_id query) = Some d"
    and r: "r \<in> set (resp_results resp)" and v: "r_search_type r = ''visual''"
  from h search_video_Inr[of P now st query resp st']
  have "resp_results resp = py_slice_to (rank_results (search_candidates P d query)) (q_top_k query)"
    by auto
  with r have "r \<in> set (search_candidates P d query)"
    using ranked_slice_subset[of "search_candidates P d query" "q_top_k query"] by auto
  from visual_candidate_text[OF this v]
  show "r_text r =
           (case find (\<lambda>seg. seg_start seg \<le> r_timestamp r \<and> r_timestamp r \<le> seg_end seg)
                   (segments d) of
              Some seg \<Rightarrow> seg_text seg
            | None \<Rightarrow> ''Visual content at '' @ format_1f (r_timestamp r) @ ''s'')"
    by (simp add: corresponding_text_find)
qed

theorem visual_text_first_containing_segment_witness:
  "visual_result (segments ex_data) ''vid'' (frame_match ex_frame1 0)
     \<in> set (visual_search ex_providers ex_data (ex_query ''cats'' ''visual'')) \<and>
   find (\<lambda>seg. seg_start seg \<le> 1 \<and> 1 \<le> seg_end seg) (segments ex_data) = Some ex_segment_cats \<and>
   r_text (visual_result (segments ex_data) ''vid'' (frame_match ex_frame1 0)) = ''Cats are great'' \<and>
   visual_result (segments ex_data) ''vid'' (frame_match ex_frame2 (3 / 5))
     \<in> set (visual_search ex_providers ex_data (ex_query ''cats'' ''visual'')) \<and>
   find (\<lambda>seg. seg_start seg \<le> 2 \<and> 2 \<le> seg_end seg) (segments ex_data) = None \<and>
   r_text (visual_result (segments ex_data) ''vid'' (frame_match ex_frame2 (3 / 5))) =
     ''Visual content at 2.0s'' \<and>
   list_all
     (\<lambda>r. r_text r =
        (case find (\<lambda>seg. seg_start seg \<le> r_timestamp r \<and> r_timestamp r \<le> seg_end seg)
                (segments ex_data) of
           Some seg \<Rightarrow> seg_text seg
         | None \<Rightarrow> ''Visual content at '' @ format_1f (r_timestamp r) @ ''s''))
     (visual_search ex_providers ex_data (ex_query ''cats'' ''visual'') @
      hybrid_visual_search ex_providers ex_data (ex_query ''cats'' ''visual''))"
proof -
  note t = visual_text_first_containing_segment[where P = ex_providers and data = ex_data
      and query = "ex_query ''cats'' ''visual''"]
  have m: "visual_result (segments ex_data) ''vid'' (frame_match ex_frame1 0)
     \<in> set (visual_search ex_providers ex_data (ex_query ''cats'' ''visual''))"
    "visual_result (segments ex_data) ''vid'' (frame_match ex_frame2 (3 / 5))
     \<in> set (visual_search ex_providers ex_data (ex_query ''cats'' ''visual''))"
    by (simp_all add: ex_visual_search)
  have f: "find (\<lambda>seg. seg_start seg \<le> 1 \<and> 1 \<le> seg_end seg) (segments ex_data) = Some ex_segment_cats"
    "find (\<lambda>seg. seg_start seg \<le> 2 \<and> 2 \<le> seg_end seg) (segments ex_data) = None"
    by (simp_all add: ex_defs)
  have x: "r_text (visual_result (segments ex_data) ''vid'' (frame_match ex_frame1 0)) = ''Cats are great''"
    "r_text (visual_result (segments ex_data) ''vid'' (frame_match ex_frame2 (3 / 5))) =
     ''Visual content at 2.0s''"
    by (simp_all add: ex_defs eval_defs)
  from t have a: "\<forall>r\<in>set (visual_search ex_providers ex_data (ex_query ''cats'' ''visual'')) \<union>
        set (hybrid_visual_search ex_providers ex_data (ex_query ''cats'' ''visual'')).
      r_text r =
        (case find (\<lambda>seg. seg_start seg \<le> r_timestamp r \<and> r_timestamp r \<le> seg_end seg)
                (segments ex_data) of
           Some seg \<Rightarrow> seg_text seg
         | None \<Rightarrow> ''Visual content at '' @ format_1f (r_timestamp r) @ ''s'')"
    by blast
  show ?thesis using m f x a unfolding list_all_iff by simp
qed

subsection \<open>Claim C6\<close>




subsection \<open>Claim C7\<close>

text \<open>
  Claim C7 as stated requires the request to fail when all its modes fail. On the example
  session, with both encoders raising, a hybrid request returns a response with no
  results.
\<close>

theorem all_providers_fail_counterexample:
  "get_text_embeddings ex_failing_providers [q_query (ex_query ''cats'' ''hybrid'')] =
     Inl (ProviderException ''model unavailable'') \<and>
   encode_text_with_openclip ex_failing_providers (q_query (ex_query ''cats'' ''hybrid'')) =
     Inl (ProviderException ''model unavailable'') \<and>
   search_video ex_failing_providers ''2024-05-01T10:00:00'' ex_state (ex_query ''cats'' ''hybrid'') =
     Inr (ex_response ''hybrid'' [],
          ex_state_after
            [\<lparr>h_query = ''cats'', h_search_type = ''hybrid'',
              h_timestamp = ''2024-05-01T10:00:00'', h_results_count = 0, h_top_score = 0\<rparr>])"
  using ex_search_video_failing[of "''2024-05-01T10:00:00''"] by (simp add: ex_defs)

text \<open>
  Claim C7, amended. If the encoder of a mode raises, that mode contributes no candidate:
  text mode and pure visual mode have no candidates, and hybrid mode is left with the
  candidates of the other mode. The endpoint returns a response all the same; when
  every mode of the request has failed, the response has no results and
  \<open>total_matches = 0\<close>, and no error reaches the caller.
\<close>

theorem provider_failure_gives_empty_mode:
  assumes "data_files st (q_video_id query) = Some data"
  shows "((\<exists>e. get_text_embeddings P [q_query query] = Inl e) \<longrightarrow>
            text_search P data query = [] \<and>
            hybrid_search P data query = hybrid_visual_search P data query) \<and>
         ((\<exists>e. encode_text_with_openclip P (q_query query) = Inl e) \<longrightarrow>
            visual_search P data query = [] \<and>
            hybrid_search P data query = hybrid_text_search P data query) \<and>
         ((q_search_type query = ''text'' \<and>
             (\<exists>e. get_text_embeddings P [q_query query] = Inl e)) \<or>
          (q_search_type query = ''visual'' \<and>
             (\<exists>e. encode_text_with_openclip P (q_query query) = Inl e)) \<or>
          ((\<exists>e. get_text_embeddings P [q_query query] = Inl e) \<and>
             (\<exists>e. encode_text_with_openclip P (q_query query) = Inl e)) \<longrightarrow>
            search_candidates P data query = []) \<and>
         (\<exists>resp st'. search_video P now st query = Inr (resp, st') \<and>
            (search_candidates P data query = [] \<longrightarrow>
               resp_results resp = [] \<and> resp_total_matches resp = 0))"
proof -
  have e: "rank_results [] = []"
    by (simp add: rank_results_def sort_by_score_def)
  show ?thesis
    using assms
    by (auto simp: search_video_def Let_def e py_slice_to_def search_candidates_def
        hybrid_search_def text_search_def visual_search_def hybrid_text_search_def
        hybrid_visual_search_def)
qed

theorem provider_failure_gives_empty_mode_witness:
  "data_files ex_state (q_video_id (ex_query ''cats'' ''hybrid'')) = Some ex_data \<and>
   (\<exists>e. get_text_embeddings ex_failing_providers [q_query (ex_query ''cats'' ''hybrid'')] = Inl e) \<and>
   (\<exists>e. encode_text_with_openclip ex_failing_providers (q_query (ex_query ''cats'' ''hybrid'')) = Inl e) \<and>
   text_search ex_failing_providers ex_data (ex_query ''cats'' ''hybrid'') = [] \<and>
   visual_search ex_failing_providers ex_data (ex_query ''cats'' ''hybrid'') = [] \<and>
   search_candidates ex_failing_providers ex_data (ex_query ''cats'' ''hybrid'') = [] \<and>
   (\<exists>resp st'. search_video ex_failing_providers ''2024-05-01T10:00:00'' ex_state
        (ex_query ''cats'' ''hybrid'') = Inr (resp, st') \<and>
      resp_results resp = [] \<and> resp_total_matches resp = 0)"
proof -
  have d: "data_files ex_state (q_video_id (ex_query ''cats'' ''hybrid'')) = Some ex_data"
    by (simp add: ex_defs)
  have f1: "\<exists>e. get_text_embeddings ex_failing_providers [q_query (ex_query ''cats'' ''hybrid'')] = Inl e"
    by (simp add: ex_defs)
  have f2: "\<exists>e. encode_text_with_openclip ex_failing_providers (q_query (ex_query ''cats'' ''hybrid'')) = Inl e"
    by (simp add: ex_defs)
  note t = provider_failure_gives_empty_mode[OF d, of ex_failing_providers "''2024-05-01T10:00:00''"]
  from t f1 f2 show ?thesis using d by blast
qed

subsection \<open>Claim C8\<close>



subsection \<open>Claim C9\<close>



subsection \<open>Claim C10\<close>

text \<open>
  Claim C10. A request whose \<open>search_type\<close> is neither \<open>text\<close> nor \<open>visual\<close> is served by
  the hybrid branch: its candidates are those of hybrid search, the same as for
  \<open>search_type = hybrid\<close>, and the response is built from them. The search type never
  causes an error: the endpoint fails only when the data file of the video is missing.
\<close>

theorem other_search_type_runs_hybrid:
  assumes "q_search_type query \<noteq> ''text''" and "q_search_type query \<noteq> ''visual''"
  shows "search_candidates P data query = hybrid_search P data query \<and>
         search_candidates P data query =
           search_candidates P data (query\<lparr>q_search_type := ''hybrid''\<rparr>) \<and>
         (data_files st (q_video_id query) = Some data \<longrightarrow>
            (\<exists>st'. search_video P now st query =
               Inr (\<lparr>resp_results =
                       py_slice_to (rank_results (hybrid_search P data query)) (q_top_k query),
                     resp_total_matches = length (rank_results (hybrid_search P data query)),
                     resp_search_type = q_search_type query,
                     resp_model = ''OpenCLIP ViT-B-32 + LAION-2B - FIXED''\<rparr>, st'))) \<and>
         (\<forall>e. search_video P now st query = Inl e \<longrightarrow> data_files st (q_video_id query) = None)"
  using assms
  by (auto simp: search_candidates_def hybrid_search_search_type search_video_def Let_def
      split: option.splits)

theorem other_search_type_runs_hybrid_witness:
  "q_search_type (ex_query ''cats'' ''semantic'') \<noteq> ''text'' \<and>
   q_search_type (ex_query ''cats'' ''semantic'') \<noteq> ''visual'' \<and>
   data_files ex_state (q_video_id (ex_query ''cats'' ''semantic'')) = Some ex_data \<and>
   search_candidates ex_providers ex_data (ex_query ''cats'' ''semantic'') =
     hybrid_search ex_providers ex_data (ex_query ''cats'' ''semantic'') \<and>
   (\<exists>st'. search_video ex_providers ''2024-05-01T10:00:00'' ex_state (ex_query ''cats'' ''semantic'') =
      Inr (\<lparr>resp_results =
              py_slice_to (rank_results (hybrid_search ex_providers ex_data
                 (ex_query ''cats'' ''semantic''))) (q_top_k (ex_query ''cats'' ''semantic'')),
            resp_total_matches =
              length (rank_results (hybrid_search ex_providers ex_data (ex_query ''cats'' ''semantic''))),
            resp_search_type = q_search_type (ex_query ''cats'' ''semantic''),
            resp_model = ''OpenCLIP ViT-B-32 + LAION-2B - FIXED''\<rparr>, st')) \<and>
   hybrid_search ex_providers ex_data (ex_query ''cats'' ''semantic'') =
     [text_result ex_segment_cats (9 / 20),
      hybrid_visual_result (segments ex_data) ''vid'' ex_frame0 1,
      hybrid_visual_result (segments ex_data) ''vid'' ex_frame2 (3 / 5)]"
proof -
  have h1: "q_search_type (ex_query ''cats'' ''semantic'') \<noteq> ''text''"
    and h2: "q_search_type (ex_query ''cats'' ''semantic'') \<noteq> ''visual''"
    by (simp_all add: ex_query_def)
  have d: "data_files ex_state (q_video_id (ex_query ''cats'' ''semantic'')) = Some ex_data"
    by (simp add: ex_defs)
  have e: "hybrid_search ex_providers ex_data (ex_query ''cats'' ''semantic'') =
     [text_result ex_segment_cats (9 / 20),
      hybrid_visual_result (segments ex_data) ''vid'' ex_frame0 1,
      hybrid_visual_result (segments ex_data) ''vid'' ex_frame2 (3 / 5)]"
    by (simp add: ex_defs eval_defs)
  note t = other_search_type_runs_hybrid[OF h1 h2, of ex_providers ex_data ex_state
      "''2024-05-01T10:00:00''"]
  from t d show ?thesis using h1 h2 e by blast
qed

end
